theory Spec2Isabelle
  imports Main "HOL-Library.AList" "HOL-Library.Word"
begin

section \<open>Values, documents and properties\<close>

text \<open>
  The service moves JSON documents in and out of a property store.  In \<^verbatim>\<open>app.go\<close> a
  document is a \<^verbatim>\<open>map[string]interface{}\<close> as \<^verbatim>\<open>encoding/json\<close> produces it: the dynamic
  type of a value is nil, bool, float64, string, \<^verbatim>\<open>[]interface{}\<close> or a nested map.  The
  code itself adds int64 values (the identifier and the time stamps).

  A float64 is carried as its 64 bit pattern: the code never computes on one.  An int64
  is an \<^typ>\<open>int\<close>; the only place where its range matters is \<^verbatim>\<open>strconv.ParseInt\<close>, which
  checks it.

  A Go map is an association list with distinct keys.  \<^verbatim>\<open>m[k]\<close> is \<^const>\<open>map_of\<close>,
  \<^verbatim>\<open>m[k] = v\<close> is \<^const>\<open>AList.update\<close> (in place for a key that is there, at the end for a
  new one) and \<^verbatim>\<open>delete(m, k)\<close> is \<^const>\<open>AList.delete\<close>.  The order of the list is the
  order in which \<^verbatim>\<open>range\<close> visits the keys; Go leaves that order open, so a statement
  about every list with distinct keys is a statement about every order of iteration.
\<close>

datatype val =
    Null
  | Bool bool
  | Number "64 word"
  | String string
  | Int64 int
  | Array "val list"
  | Document "(string \<times> val) list"

type_synonym document = "(string \<times> val) list"

text \<open>\<^verbatim>\<open>datastore.Property\<close>, with the fields of the library's struct.\<close>

record Property =
  Name :: string
  Value :: val
  NoIndex :: bool
  Multiple :: bool

type_synonym PropertyList = "Property list"

definition idKey :: string where "idKey = ''_id''"
definition createdKey :: string where "createdKey = ''_created''"
definition updatedKey :: string where "updatedKey = ''_updated''"

section \<open>The codec\<close>

subsection \<open>\<^verbatim>\<open>mapToPlist\<close>\<close>

text \<open>
  \<^verbatim>\<open>for k, v := range m\<close>: a nested map is flattened under the prefix \<^verbatim>\<open>prefix+k+"."\<close>,
  a slice gives one property per element with \<^verbatim>\<open>Multiple: true\<close>, anything else gives one
  property.  The fields the composite literals leave out have their zero value.
\<close>

function mapToPlist :: "string \<Rightarrow> document \<Rightarrow> PropertyList" where
  "mapToPlist prefix [] = []"
| "mapToPlist prefix ((k, Document m) # rest) =
     mapToPlist (prefix @ k @ ''.'') m @ mapToPlist prefix rest"
| "mapToPlist prefix ((k, Array vs) # rest) =
     map (\<lambda>mv. \<lparr>Name = prefix @ k, Value = mv, NoIndex = False, Multiple = True\<rparr>) vs
       @ mapToPlist prefix rest"
| "mapToPlist prefix ((k, Null) # rest) =
     \<lparr>Name = prefix @ k, Value = Null, NoIndex = False, Multiple = False\<rparr>
       # mapToPlist prefix rest"
| "mapToPlist prefix ((k, Bool b) # rest) =
     \<lparr>Name = prefix @ k, Value = Bool b, NoIndex = False, Multiple = False\<rparr>
       # mapToPlist prefix rest"
| "mapToPlist prefix ((k, Number x) # rest) =
     \<lparr>Name = prefix @ k, Value = Number x, NoIndex = False, Multiple = False\<rparr>
       # mapToPlist prefix rest"
| "mapToPlist prefix ((k, String s) # rest) =
     \<lparr>Name = prefix @ k, Value = String s, NoIndex = False, Multiple = False\<rparr>
       # mapToPlist prefix rest"
| "mapToPlist prefix ((k, Int64 i) # rest) =
     \<lparr>Name = prefix @ k, Value = Int64 i, NoIndex = False, Multiple = False\<rparr>
       # mapToPlist prefix rest"
  by pat_completeness auto
termination
  by (relation "measure (\<lambda>(prefix, m). size_list (size_prod (\<lambda>_. 0) size) m)") auto

subsection \<open>\<^verbatim>\<open>plistToMap\<close>\<close>

text \<open>
  \<^verbatim>\<open>strings.Split(s, sep)\<close> for a separator of one byte (the code splits on \<^verbatim>\<open>"."\<close>,
  \<^verbatim>\<open>"/"\<close> and \<^verbatim>\<open>"="\<close>).  The result is never empty: a string without the separator,
  the empty string too, gives the string itself as the only part.
\<close>

fun Split :: "string \<Rightarrow> char \<Rightarrow> string list" where
  "Split [] sep = [[]]"
| "Split (c # cs) sep =
     (if c = sep then [] # Split cs sep
      else (case Split cs sep of [] \<Rightarrow> [[c]] | w # ws \<Rightarrow> (c # w) # ws))"

text \<open>
  The last segment: \<^verbatim>\<open>sub[leaf]\<close> is set when the key is new, a slice that is there is
  appended to, and any other value that is there becomes the first element of a new
  slice of two.
\<close>

definition setLeaf :: "string \<Rightarrow> val \<Rightarrow> document \<Rightarrow> document" where
  "setLeaf leaf x sub =
     (case map_of sub leaf of
        None \<Rightarrow> AList.update leaf x sub
      | Some (Array a) \<Rightarrow> AList.update leaf (Array (a @ [x])) sub
      | Some old \<Rightarrow> AList.update leaf (Array [old, x]) sub)"

text \<open>
  The inner loop over \<^verbatim>\<open>parts[:len(parts)-1]\<close>, followed by the store at the leaf.  In
  the source \<^verbatim>\<open>sub\<close> is a reference into \<^verbatim>\<open>m\<close>, so a store through \<^verbatim>\<open>sub\<close> changes \<^verbatim>\<open>m\<close> at
  the place of the nested map; here the nested map is rebuilt and put back under its key.
  Three cases for a segment \<^verbatim>\<open>p\<close>: a map is there and the walk enters it; something else
  is there and the branch is empty, so \<^verbatim>\<open>sub\<close> stays what it was and the loop goes on
  with the next segment; nothing is there and a new empty map is stored and entered.
\<close>

fun walk :: "string list \<Rightarrow> string \<Rightarrow> val \<Rightarrow> document \<Rightarrow> document" where
  "walk [] leaf x sub = setLeaf leaf x sub"
| "walk (p # ps) leaf x sub =
     (case map_of sub p of
        Some (Document ii) \<Rightarrow> AList.update p (Document (walk ps leaf x ii)) sub
      | Some _ \<Rightarrow> walk ps leaf x sub
      | None \<Rightarrow> AList.update p (Document (walk ps leaf x [])) sub)"

text \<open>The body of the outer loop, for one property.\<close>

definition addProperty :: "Property \<Rightarrow> document \<Rightarrow> document" where
  "addProperty p m =
     (let parts = Split (Name p) CHR ''.''
      in walk (butlast parts) (last parts) (Value p) m)"

definition plistToMap :: "PropertyList \<Rightarrow> int \<Rightarrow> document" where
  "plistToMap pl eid = AList.update idKey (Int64 eid) (fold addProperty pl [])"


section \<open>The property store\<close>

text \<open>
  Modelled from the spec: the Property Store of section 6 of the specification, which the
  code reaches through package \<^verbatim>\<open>appengine/datastore\<close>; the package is not part of the
  repository.  An entity is the property list stored under a key, and a key is a kind with
  an int64 identifier.  A key whose identifier is 0 is incomplete (this is what
  \<^verbatim>\<open>NewIncompleteKey\<close> builds), and \<^verbatim>\<open>Put\<close> on an incomplete key stores under an identifier
  the store generates.  The store never hands out an identifier twice, nor one that a
  caller has already written under: it keeps a counter above every identifier in use.
  \<^verbatim>\<open>Get\<close> and \<^verbatim>\<open>Delete\<close> fail with \<^verbatim>\<open>ErrNoSuchEntity\<close> when nothing is stored under the key.
  Every call fails with some other error while the store is not available, and \<^verbatim>\<open>Put\<close>
  also fails on a property list the store does not accept (which values it accepts is
  left open).
\<close>

datatype dsError = ErrNoSuchEntity | ErrOther

record datastore =
  entities :: "string \<times> int \<Rightarrow> PropertyList option"
  nextID :: int
  accepts :: "PropertyList \<Rightarrow> bool"
  available :: bool

text \<open>Whether an entity is stored under a key.\<close>

definition present :: "datastore \<Rightarrow> string \<Rightarrow> int \<Rightarrow> bool" where
  "present s kind eid = (entities s (kind, eid) \<noteq> None)"

text \<open>
  Modelled from the spec: \<^verbatim>\<open>get(storageKind, id)\<close> gives the properties and fails with
  NotFound; this is \<^verbatim>\<open>datastore.Get\<close> on the key \<^verbatim>\<open>NewKey(c, kind, "", id, nil)\<close>.
\<close>

definition dsGet :: "string \<Rightarrow> int \<Rightarrow> datastore \<Rightarrow> dsError + PropertyList" where
  "dsGet kind eid s =
     (if \<not> available s then Inl ErrOther
      else case entities s (kind, eid) of
             None \<Rightarrow> Inl ErrNoSuchEntity
           | Some pl \<Rightarrow> Inr pl)"

text \<open>
  Modelled from the spec: \<^verbatim>\<open>delete(storageKind, id)\<close> fails with NotFound; this is
  \<^verbatim>\<open>datastore.Delete\<close>, returning its error (\<^const>\<open>None\<close> for nil) and the store after it.
\<close>

definition dsDelete :: "string \<Rightarrow> int \<Rightarrow> datastore \<Rightarrow> dsError option \<times> datastore" where
  "dsDelete kind eid s =
     (if \<not> available s then (Some ErrOther, s)
      else case entities s (kind, eid) of
             None \<Rightarrow> (Some ErrNoSuchEntity, s)
           | Some pl \<Rightarrow> (None, s\<lparr>entities := (entities s)((kind, eid) := None)\<rparr>))"

text \<open>
  Modelled from the spec: \<^verbatim>\<open>put(storageKind, optional id, properties)\<close> gives the
  identifier; this is \<^verbatim>\<open>datastore.Put\<close>, which writes the entity whether or not one is
  stored under the key, and returns the key it stored under.
\<close>

definition dsPut ::
  "string \<Rightarrow> int \<Rightarrow> PropertyList \<Rightarrow> datastore \<Rightarrow> (dsError + int) \<times> datastore" where
  "dsPut kind eid pl s =
     (if \<not> available s \<or> \<not> accepts s pl then (Inl ErrOther, s)
      else let k = (if eid = 0 then nextID s else eid)
           in (Inr k, s\<lparr>entities := (entities s)((kind, k) \<mapsto> pl),
                        nextID := max (nextID s) (k + 1)\<rparr>))"

text \<open>
  Every entity lies below the counter, and the counter is positive, so that a generated
  identifier is never 0.
\<close>

definition dsInv :: "datastore \<Rightarrow> bool" where
  "dsInv s = (0 < nextID s \<and> (\<forall>kind eid. present s kind eid \<longrightarrow> eid < nextID s))"

definition emptyStore :: datastore where
  "emptyStore = \<lparr>entities = (\<lambda>k. None), nextID = 1, accepts = (\<lambda>pl. True), available = True\<rparr>"

section \<open>The operations\<close>

text \<open>
  What \<^verbatim>\<open>fromJSON\<close> makes of the request body: \<^verbatim>\<open>Decode\<close> fails; or the body is the JSON
  value \<^verbatim>\<open>null\<close>, which decodes without an error and leaves the map nil; or the body is
  an object.  A function that stores into the nil map panics: its result is \<^const>\<open>None\<close>.
\<close>

datatype body = Malformed | JSONNull | JSONObject document

type_synonym response = "document option \<times> int"

abbreviation StatusOK :: int where "StatusOK \<equiv> 200"
abbreviation StatusBadRequest :: int where "StatusBadRequest \<equiv> 400"
abbreviation StatusUnauthorized :: int where "StatusUnauthorized \<equiv> 401"
abbreviation StatusNotFound :: int where "StatusNotFound \<equiv> 404"
abbreviation StatusMethodNotAllowed :: int where "StatusMethodNotAllowed \<equiv> 405"
abbreviation StatusInternalServerError :: int where "StatusInternalServerError \<equiv> 500"

definition delete2 :: "string \<Rightarrow> int \<Rightarrow> datastore \<Rightarrow> int \<times> datastore" where
  "delete2 kind eid s =
     (case dsDelete kind eid s of
        (Some ErrNoSuchEntity, s') \<Rightarrow> (StatusNotFound, s')
      | (Some ErrOther, s') \<Rightarrow> (StatusInternalServerError, s')
      | (None, s') \<Rightarrow> (StatusOK, s'))"

definition get :: "string \<Rightarrow> int \<Rightarrow> datastore \<Rightarrow> response" where
  "get kind eid s =
     (case dsGet kind eid s of
        Inl ErrNoSuchEntity \<Rightarrow> (None, StatusNotFound)
      | Inl ErrOther \<Rightarrow> (None, StatusInternalServerError)
      | Inr pl \<Rightarrow> (Some (AList.update idKey (Int64 eid) (plistToMap pl eid)), StatusOK))"

text \<open>
  \<^verbatim>\<open>insert\<close> (the name \<open>insert\<close> is taken by the insertion into a set) and \<^verbatim>\<open>update\<close>.
  Both store a time stamp into the map and then encode it, before they set \<^verbatim>\<open>_id\<close> in it
  for the answer.  Where \<^verbatim>\<open>range\<close> visits a key after a store into the map is open, as
  is the order of the other keys: the map is encoded in the order that the first
  argument \<open>visit\<close> gives to its entries, which the statements take to be any
  arrangement of them.  The second argument is what \<^verbatim>\<open>nowFunc().Unix()\<close> returns.
\<close>

definition insert_entity ::
  "(document \<Rightarrow> document) \<Rightarrow> int \<Rightarrow> string \<Rightarrow> body \<Rightarrow> datastore \<Rightarrow>
   (response \<times> datastore) option" where
  "insert_entity visit now kind b s =
     (case b of
        Malformed \<Rightarrow> Some ((None, StatusInternalServerError), s)
      | JSONNull \<Rightarrow> None
      | JSONObject m0 \<Rightarrow>
          (let m = AList.update createdKey (Int64 now) m0;
               pl = mapToPlist [] (visit m)
           in case dsPut kind 0 pl s of
                (Inl e, s') \<Rightarrow> Some ((None, StatusInternalServerError), s')
              | (Inr k, s') \<Rightarrow> Some ((Some (AList.update idKey (Int64 k) m), StatusOK), s')))"

definition update ::
  "(document \<Rightarrow> document) \<Rightarrow> int \<Rightarrow> string \<Rightarrow> int \<Rightarrow> body \<Rightarrow> datastore \<Rightarrow>
   (response \<times> datastore) option" where
  "update visit now kind eid b s =
     (case b of
        Malformed \<Rightarrow> Some ((None, StatusInternalServerError), s)
      | JSONNull \<Rightarrow> None
      | JSONObject m0 \<Rightarrow>
          (let m = AList.update updatedKey (Int64 now)
                     (AList.delete idKey (AList.delete createdKey m0));
               pl = mapToPlist [] (visit m)
           in case dsPut kind eid pl s of
                (Inl e, s') \<Rightarrow> Some ((None, StatusInternalServerError), s')
              | (Inr k, s') \<Rightarrow> Some ((Some (AList.update idKey (Int64 eid) m), StatusOK), s')))"

subsection \<open>\<^verbatim>\<open>list\<close>\<close>

text \<open>
  A cursor is carried as the string \<^verbatim>\<open>Cursor.String()\<close> gives; the zero cursor gives the
  empty string.  A query is the kind given to \<^verbatim>\<open>NewQuery\<close> with the calls made on it, in
  order.  \<^verbatim>\<open>DecodeCursor\<close> and the run of a query belong to the library and are
  parameters: the run of a query is the list of what the calls of \<^verbatim>\<open>Next\<close> return before
  \<^verbatim>\<open>Done\<close>, each row with what \<^verbatim>\<open>Cursor()\<close> returns after it (\<^const>\<open>None\<close> for an error).
  The list is finite, as the entities of a store are; the loop of \<^verbatim>\<open>list\<close> leaves it at
  the first error, so what follows an error in the list is never looked at.
\<close>

type_synonym Cursor = string

datatype queryCall =
    QLimit int
  | QOrder string
  | QStart Cursor
  | QEnd Cursor
  | QFilter string string

type_synonym Query = "string \<times> queryCall list"

datatype iterStep =
    NextError
  | NextRow int PropertyList "Cursor option"

record userQuery =
  Limit :: int
  StartCursor :: string
  EndCursor :: string
  Sort :: string
  Filters :: "(string \<times> string) list"

text \<open>The first part of \<^verbatim>\<open>list\<close>, up to the loop: the calls that build the query.\<close>

definition buildQuery :: "(string \<Rightarrow> Cursor option) \<Rightarrow> string \<Rightarrow> userQuery \<Rightarrow> Query" where
  "buildQuery decode kind uq =
     (kind,
      (if Limit uq \<noteq> 0 then [QLimit (Limit uq)] else [])
      @ (if Sort uq \<noteq> [] then [QOrder (Sort uq)] else [])
      @ (case decode (StartCursor uq) of Some c \<Rightarrow> [QStart c] | None \<Rightarrow> [])
      @ (case decode (EndCursor uq) of Some c \<Rightarrow> [QEnd c] | None \<Rightarrow> [])
      @ map (\<lambda>(k, v). QFilter k v) (Filters uq))"

text \<open>
  The loop, with the items and the cursor so far; at \<^verbatim>\<open>Done\<close> the answer is the map of
  the items and of the last cursor.
\<close>

fun listLoop :: "document list \<Rightarrow> Cursor \<Rightarrow> iterStep list \<Rightarrow> response" where
  "listLoop items crs [] =
     (Some [(''items'', Array (map Document items)), (''nextStartToken'', String crs)],
      StatusOK)"
| "listLoop items crs (NextError # t) = (None, StatusInternalServerError)"
| "listLoop items crs (NextRow eid pl None # t) = (None, StatusInternalServerError)"
| "listLoop items crs (NextRow eid pl (Some c) # t) =
     listLoop (items @ [plistToMap pl eid]) c t"

definition list_entities ::
  "(string \<Rightarrow> Cursor option) \<Rightarrow> (Query \<Rightarrow> datastore \<Rightarrow> iterStep list) \<Rightarrow>
   string \<Rightarrow> userQuery \<Rightarrow> datastore \<Rightarrow> response" where
  "list_entities decode run kind uq s =
     listLoop [] [] (run (buildQuery decode kind uq) s)"


section \<open>Requests\<close>

subsection \<open>\<^verbatim>\<open>getKindAndID\<close>\<close>

text \<open>
  \<^verbatim>\<open>strconv.ParseInt(s, 10, bitSize)\<close>: an optional sign, then one decimal digit or more,
  and the value has to fit \<^verbatim>\<open>bitSize\<close> bits; \<^const>\<open>None\<close> is the error.  The digits are
  summed without a bound here and compared with the cutoff, which rejects the same strings
  as the library's saturating \<^verbatim>\<open>ParseUint\<close> does.
\<close>

definition isDigit :: "char \<Rightarrow> bool" where
  "isDigit c = (of_char CHR ''0'' \<le> (of_char c :: nat) \<and> (of_char c :: nat) \<le> of_char CHR ''9'')"

fun parseDigits :: "nat \<Rightarrow> string \<Rightarrow> nat option" where
  "parseDigits n [] = Some n"
| "parseDigits n (c # cs) =
     (if isDigit c then parseDigits (n * 10 + (of_char c - of_char CHR ''0'')) cs else None)"

definition ParseUint :: "string \<Rightarrow> nat option" where
  "ParseUint s = (if s = [] then None else parseDigits 0 s)"

definition ParseInt :: "string \<Rightarrow> nat \<Rightarrow> int option" where
  "ParseInt s bitSize =
     (case s of
        [] \<Rightarrow> None
      | c # cs \<Rightarrow>
          (let neg = (c = CHR ''-'');
               digits = (if c = CHR ''+'' \<or> c = CHR ''-'' then cs else s);
               cutoff = 2 ^ (bitSize - 1)
           in case ParseUint digits of
                None \<Rightarrow> None
              | Some un \<Rightarrow>
                  if \<not> neg \<and> cutoff \<le> un then None
                  else if neg \<and> cutoff < un then None
                  else Some (if neg then - int un else int un)))"

definition HasPrefix :: "string \<Rightarrow> string \<Rightarrow> bool" where
  "HasPrefix s p = (take (length p) s = p)"

datatype pathError = invalidPath | NumError

definition getKindAndID :: "string \<Rightarrow> pathError + string \<times> int" where
  "getKindAndID path =
     (if \<not> HasPrefix path ''/'' \<or> path = ''/'' then Inl invalidPath
      else let parts = Split (drop 1 path) CHR ''/''
           in if 2 < length parts then Inl invalidPath
              else if length parts = 1 then Inr (parts ! 0, 0)
              else if length parts = 2 then
                (case ParseInt (parts ! 1) 64 of
                   None \<Rightarrow> Inl NumError
                 | Some eid \<Rightarrow> Inr (parts ! 0, eid))
              else Inl invalidPath)"

subsection \<open>\<^verbatim>\<open>handle\<close>\<close>

text \<open>
  Of a request the handler reads the method, the path, the parsed form (each key with its
  values; \<^verbatim>\<open>Form.Get\<close> and \<^verbatim>\<open>FormValue\<close> give the first value, or the empty string), the
  \<^verbatim>\<open>Authorization\<close> header and the body.
\<close>

record Request =
  Method :: string
  Path :: string
  Form :: "string \<Rightarrow> string list"
  Authorization :: string
  Body :: body

definition FormValue :: "Request \<Rightarrow> string \<Rightarrow> string" where
  "FormValue r key = (case Form r key of [] \<Rightarrow> [] | v # vs \<Rightarrow> v)"

text \<open>
  What the handler takes from its surroundings: whether this is the development server,
  the \<^verbatim>\<open>ID\<close> field the userinfo endpoint answers for an access token (\<^const>\<open>None\<close> when the
  fetch or the decoding fails), the library's cursor decoder and query runs, the clock,
  the size of \<^verbatim>\<open>int\<close> that \<^verbatim>\<open>strconv.Atoi\<close> parses for, and the order in which \<^verbatim>\<open>range\<close>
  visits a map.
\<close>

record Env =
  IsDevAppServer :: bool
  userinfo :: "string \<Rightarrow> string option"
  DecodeCursor :: "string \<Rightarrow> Cursor option"
  runQuery :: "Query \<Rightarrow> datastore \<Rightarrow> iterStep list"
  nowUnix :: int
  IntSize :: nat
  visitOrder :: "document \<Rightarrow> document"

definition getUserID :: "Env \<Rightarrow> string \<Rightarrow> string option" where
  "getUserID env accessToken =
     (case userinfo env accessToken of
        None \<Rightarrow> None
      | Some uid \<Rightarrow> if uid = [] then None else Some uid)"

fun whereFilters :: "string list \<Rightarrow> (string \<times> string) list option" where
  "whereFilters [] = Some []"
| "whereFilters (f # fs) =
     (case Split f CHR ''='' of
        [k, v] \<Rightarrow> map_option ((#) (k, v)) (whereFilters fs)
      | _ \<Rightarrow> None)"

definition newUserQuery :: "Env \<Rightarrow> Request \<Rightarrow> userQuery option" where
  "newUserQuery env r =
     (let uq = \<lparr>Limit = 0, StartCursor = FormValue r ''start'', EndCursor = FormValue r ''end'',
                Sort = FormValue r ''sort'', Filters = []\<rparr>
      in case (if FormValue r ''limit'' \<noteq> []
               then map_option (\<lambda>lim. uq\<lparr>Limit := lim\<rparr>)
                      (ParseInt (FormValue r ''limit'') (IntSize env))
               else Some uq) of
           None \<Rightarrow> None
         | Some uq' \<Rightarrow> map_option (\<lambda>fs. uq'\<lparr>Filters := fs\<rparr>) (whereFilters (Form r ''where'')))"

text \<open>
  The first part of \<^verbatim>\<open>handle\<close>: the user identifier, or the status of the early return.
\<close>

definition userIDOf :: "Env \<Rightarrow> Request \<Rightarrow> int + string" where
  "userIDOf env r =
     (if IsDevAppServer env then Inr (FormValue r ''user_id'')
      else let t = FormValue r ''access_token'';
               accessToken =
                 (if t = [] then
                    (if HasPrefix (Authorization r) ''Bearer ''
                     then drop (length ''Bearer '') (Authorization r) else [])
                  else t)
           in if accessToken = [] then Inl StatusUnauthorized
              else case getUserID env accessToken of
                     None \<Rightarrow> Inl StatusInternalServerError
                   | Some uid \<Rightarrow> Inr uid)"

text \<open>
  The end of \<^verbatim>\<open>handle\<close>: a status other than 200 is sent with an empty body, otherwise
  a response map that is neither nil nor empty is written as JSON.
\<close>

definition finish :: "response \<Rightarrow> int \<times> document option" where
  "finish res =
     (if snd res \<noteq> StatusOK then (snd res, None)
      else case fst res of
             Some (x # xs) \<Rightarrow> (StatusOK, Some (x # xs))
           | _ \<Rightarrow> (StatusOK, None))"

text \<open>
  The handler gives the status and the JSON body it sends, and the store after the
  request; \<^const>\<open>None\<close> when the operation panics.
\<close>

definition handle ::
  "Env \<Rightarrow> Request \<Rightarrow> datastore \<Rightarrow> ((int \<times> document option) \<times> datastore) option" where
  "handle env r s =
     (case userIDOf env r of
        Inl code \<Rightarrow> Some ((code, None), s)
      | Inr userID \<Rightarrow>
          (case getKindAndID (Path r) of
             Inl e \<Rightarrow> Some ((StatusBadRequest, None), s)
           | Inr (kind, eid) \<Rightarrow>
               (let dsKind = userID @ ''--'' @ kind
                in if eid = 0 then
                     (if Method r = ''POST'' then
                        map_option (\<lambda>(res, s'). (finish res, s'))
                          (insert_entity (visitOrder env) (nowUnix env) dsKind (Body r) s)
                      else if Method r = ''GET'' then
                        (case newUserQuery env r of
                           None \<Rightarrow> Some ((StatusBadRequest, None), s)
                         | Some uq \<Rightarrow>
                             Some (finish (list_entities (DecodeCursor env) (runQuery env)
                                             dsKind uq s), s))
                      else Some ((StatusMethodNotAllowed, None), s))
                   else
                     (if Method r = ''GET'' then Some (finish (get dsKind eid s), s)
                      else if Method r = ''DELETE'' then
                        (case delete2 dsKind eid s of
                           (code, s') \<Rightarrow> Some (finish (None, code), s'))
                      else if Method r = ''POST'' then
                        map_option (\<lambda>(res, s'). (finish res, s'))
                          (update (visitOrder env) (nowUnix env) dsKind eid (Body r) s)
                      else Some ((StatusMethodNotAllowed, None), s)))))"


section \<open>Notions the statements use\<close>

fun isArray :: "val \<Rightarrow> bool" where
  "isArray (Array vs) = True"
| "isArray v = False"

fun isDocument :: "val \<Rightarrow> bool" where
  "isDocument (Document m) = True"
| "isDocument v = False"

text \<open>
  The specification's condition for the round trip: every array-valued field, at every
  level of nesting of documents, has a length other than 1.
\<close>

fun noSingletonArray :: "val \<Rightarrow> bool" where
  "noSingletonArray (Document m) = list_all (\<lambda>(k, v). noSingletonArray v) m"
| "noSingletonArray (Array vs) = (length vs \<noteq> 1)"
| "noSingletonArray v = True"

text \<open>
  The documents that do come back from the store as they went in.  At every level the keys
  are distinct (they are the keys of a Go map) and have no dot in them, a nested document
  is not empty, and an array has two elements or more, the first of which is not itself
  an array.  The elements of an array are otherwise free.
\<close>

fun roundTrips :: "val \<Rightarrow> bool" where
  "roundTrips (Document m) =
     (m \<noteq> [] \<and> distinct (map fst m)
      \<and> list_all (\<lambda>(k, v). CHR ''.'' \<notin> set k \<and> roundTrips v) m)"
| "roundTrips (Array vs) = (2 \<le> length vs \<and> \<not> isArray (hd vs))"
| "roundTrips v = True"

definition roundTripsDoc :: "document \<Rightarrow> bool" where
  "roundTripsDoc d =
     (distinct (map fst d) \<and> list_all (\<lambda>(k, v). CHR ''.'' \<notin> set k \<and> roundTrips v) d)"

text \<open>
  The maps that \<^verbatim>\<open>insert\<close> and \<^verbatim>\<open>update\<close> encode: the body with \<^verbatim>\<open>_created\<close> stamped, and the
  body without the caller's \<^verbatim>\<open>_created\<close> and \<^verbatim>\<open>_id\<close> and with \<^verbatim>\<open>_updated\<close> stamped.
\<close>

definition withCreated :: "int \<Rightarrow> document \<Rightarrow> document" where
  "withCreated now m0 = AList.update createdKey (Int64 now) m0"

definition withUpdated :: "int \<Rightarrow> document \<Rightarrow> document" where
  "withUpdated now m0 =
     AList.update updatedKey (Int64 now) (AList.delete idKey (AList.delete createdKey m0))"

text \<open>An order of visit that gives the entries of a map, each key once.\<close>

definition arrangement :: "(document \<Rightarrow> document) \<Rightarrow> document \<Rightarrow> bool" where
  "arrangement visit m = (distinct (map fst (visit m)) \<and> set (visit m) = set m)"

text \<open>The nested document that a path of keys leads to, through documents only.\<close>

fun documentAt :: "string list \<Rightarrow> document \<Rightarrow> document option" where
  "documentAt [] m = Some m"
| "documentAt (p # ps) m =
     (case map_of m p of
        Some (Document ii) \<Rightarrow> documentAt ps ii
      | _ \<Rightarrow> None)"

text \<open>A step of the iterator at which \<^verbatim>\<open>Next\<close> or \<^verbatim>\<open>Cursor\<close> returns an error.\<close>

fun isError :: "iterStep \<Rightarrow> bool" where
  "isError NextError = True"
| "isError (NextRow eid pl None) = True"
| "isError (NextRow eid pl (Some c)) = False"

text \<open>A property with a prefix put before its name.\<close>

definition under :: "string \<Rightarrow> Property \<Rightarrow> Property" where
  "under p pr = pr\<lparr>Name := p @ Name pr\<rparr>"

text \<open>
  Two stores for the examples: one user's kind \<^verbatim>\<open>contact\<close> with the entity that the
  insertion of \<^verbatim>\<open>{"name":"Alice","tags":["a","b"]}\<close> at time 100 leaves in the empty store,
  and the same store after the update of that entity with \<^verbatim>\<open>{"name":"Bob"}\<close> at time 1700.
\<close>

definition aliceStore :: datastore where
  "aliceStore = emptyStore
     \<lparr>entities := (entities emptyStore)((''u1--contact'', 1) \<mapsto>
        mapToPlist [] [(''name'', String ''Alice''),
                       (''tags'', Array [String ''a'', String ''b'']),
                       (''_created'', Int64 100)]),
      nextID := 2\<rparr>"

definition bobStore :: datastore where
  "bobStore = aliceStore
     \<lparr>entities := (entities aliceStore)((''u1--contact'', 1) \<mapsto>
        mapToPlist [] [(''name'', String ''Bob''), (''_updated'', Int64 1700)]),
      nextID := 2\<rparr>"

text \<open>
  Surroundings for the examples: a cursor decoder that rejects the token \<^verbatim>\<open>bad\<close> and takes
  every other one, the empty one too; a query run that yields the entity 1 of the kind
  when there is one, another that fails after it, and a third that yields nothing once a
  start bound has been set; the development server, which visits a map in the order
  of its list; and a request of the user \<^verbatim>\<open>u1\<close>.
\<close>

definition sampleDecode :: "string \<Rightarrow> Cursor option" where
  "sampleDecode t = (if t = ''bad'' then None else Some t)"

definition sampleRun :: "Query \<Rightarrow> datastore \<Rightarrow> iterStep list" where
  "sampleRun q s =
     (case entities s (fst q, 1) of
        None \<Rightarrow> []
      | Some pl \<Rightarrow> [NextRow 1 pl (Some ''c1'')])"

definition failingRun :: "Query \<Rightarrow> datastore \<Rightarrow> iterStep list" where
  "failingRun q s =
     (case entities s (fst q, 1) of
        None \<Rightarrow> [NextError]
      | Some pl \<Rightarrow> [NextRow 1 pl (Some ''c1''), NextError])"


definition devEnv :: Env where
  "devEnv = \<lparr>IsDevAppServer = True, userinfo = (\<lambda>t. None), DecodeCursor = sampleDecode,
             runQuery = sampleRun, nowUnix = 1700, IntSize = 64, visitOrder = (\<lambda>m. m)\<rparr>"

definition sampleRequest :: "string \<Rightarrow> string \<Rightarrow> Request" where
  "sampleRequest method path =
     \<lparr>Method = method, Path = path,
      Form = (\<lambda>key. if key = ''user_id'' then [''u1''] else []),
      Authorization = [], Body = JSONObject [(''name'', String ''Bob'')]\<rparr>"

section \<open>Association lists and splitting\<close>

lemma update_fresh: "map_of acc k = None \<Longrightarrow> AList.update k v acc = acc @ [(k, v)]"
  by (induction acc) (auto split: if_splits)

lemma map_of_snoc: "map_of acc k = None \<Longrightarrow> map_of (acc @ [(k, w)]) k = Some w"
  by (induction acc) (auto split: if_splits)

lemma map_of_snoc_other: "k' \<noteq> k \<Longrightarrow> map_of (acc @ [(k, v)]) k' = map_of acc k'"
  by (induction acc) auto

lemma update_snoc:
  "map_of acc k = None \<Longrightarrow> AList.update k v (acc @ [(k, w)]) = acc @ [(k, v)]"
  by (induction acc) (auto split: if_splits)

lemma Split_nonempty: "Split s c \<noteq> []"
  by (induction s) (auto split: list.splits)

lemma Split_nosep: "c \<notin> set s \<Longrightarrow> Split s c = [s]"
  by (induction s) auto

lemma Split_append: "c \<notin> set k \<Longrightarrow> Split (k @ c # n) c = k # Split n c"
  by (induction k) auto

section \<open>The round trip through the codec\<close>

lemma mapToPlist_prefix:
  "mapToPlist (p @ q) m = map (under p) (mapToPlist q m)"
  by (induction q m rule: mapToPlist.induct) (simp_all add: under_def)

lemma addProperty_leaf:
  "CHR ''.'' \<notin> set (Name p) \<Longrightarrow> addProperty p m = setLeaf (Name p) (Value p) m"
  by (simp add: addProperty_def Split_nosep)

lemma addProperty_nested:
  assumes "CHR ''.'' \<notin> set k"
  shows "addProperty (under (k @ ''.'') p) m =
     (case map_of m k of
        Some (Document ii) \<Rightarrow> AList.update k (Document (addProperty p ii)) m
      | Some _ \<Rightarrow> addProperty p m
      | None \<Rightarrow> AList.update k (Document (addProperty p [])) m)"
  using assms Split_nonempty[of "Name p" "CHR ''.''"]
  by (simp add: under_def addProperty_def Split_append Let_def split: option.splits val.splits)

lemma fold_nested_present:
  assumes "CHR ''.'' \<notin> set k"
  shows "map_of acc k = Some (Document sub) \<Longrightarrow>
     fold addProperty (map (under (k @ ''.'')) pl) acc =
       AList.update k (Document (fold addProperty pl sub)) acc"
proof (induction pl arbitrary: acc sub)
  case Nil
  then show ?case by (simp add: update_triv)
next
  case (Cons p pl)
  have "addProperty (under (k @ ''.'') p) acc =
          AList.update k (Document (addProperty p sub)) acc"
    using addProperty_nested[OF assms, of p acc] Cons.prems by simp
  moreover have "map_of (AList.update k (Document (addProperty p sub)) acc) k =
          Some (Document (addProperty p sub))"
    by (simp add: update_conv')
  ultimately show ?case
    using Cons.IH[of "AList.update k (Document (addProperty p sub)) acc" "addProperty p sub"]
    by simp
qed

lemma fold_nested_absent:
  assumes "CHR ''.'' \<notin> set k" and "map_of acc k = None" and "pl \<noteq> []"
  shows "fold addProperty (map (under (k @ ''.'')) pl) acc =
       acc @ [(k, Document (fold addProperty pl []))]"
proof -
  obtain p ps where pl: "pl = p # ps" using assms(3) by (cases pl) auto
  have first: "addProperty (under (k @ ''.'') p) acc =
          AList.update k (Document (addProperty p [])) acc"
    using addProperty_nested[OF assms(1), of p acc] assms(2) by simp
  have "fold addProperty (map (under (k @ ''.'')) ps)
          (AList.update k (Document (addProperty p [])) acc) =
        AList.update k (Document (fold addProperty ps (addProperty p [])))
          (AList.update k (Document (addProperty p [])) acc)"
    by (rule fold_nested_present[OF assms(1)]) (simp add: update_conv')
  then show ?thesis
    using first assms(2) by (simp add: pl update_fresh update_snoc)
qed


lemma fold_array_rest:
  assumes "CHR ''.'' \<notin> set k"
  shows "map_of acc k = Some (Array a) \<Longrightarrow>
     fold addProperty (map (\<lambda>mv. \<lparr>Name = k, Value = mv, NoIndex = False, Multiple = True\<rparr>) vs) acc =
       AList.update k (Array (a @ vs)) acc"
proof (induction vs arbitrary: acc a)
  case Nil
  then show ?case by (simp add: update_triv)
next
  case (Cons v vs)
  have "map_of (AList.update k (Array (a @ [v])) acc) k = Some (Array (a @ [v]))"
    by (simp add: update_conv')
  from Cons.IH[OF this] show ?case
    using assms Cons.prems by (simp add: addProperty_leaf setLeaf_def)
qed

lemma fold_array:
  assumes "CHR ''.'' \<notin> set k" and "map_of acc k = None"
    and "2 \<le> length vs" and "\<not> isArray (hd vs)"
  shows "fold addProperty (map (\<lambda>mv. \<lparr>Name = k, Value = mv, NoIndex = False, Multiple = True\<rparr>) vs) acc =
       acc @ [(k, Array vs)]"
proof -
  obtain v1 v2 rest where vs: "vs = v1 # v2 # rest"
    using assms(3) by (cases vs; cases "tl vs") auto
  have lk: "map_of (acc @ [(k, v1)]) k = Some v1"
    using assms(2) by (rule map_of_snoc)
  have step2: "setLeaf k v2 (acc @ [(k, v1)]) = AList.update k (Array [v1, v2]) (acc @ [(k, v1)])"
    unfolding setLeaf_def lk using assms(4) by (cases v1) (simp_all add: vs)
  have "map_of (AList.update k (Array [v1, v2]) (acc @ [(k, v1)])) k = Some (Array [v1, v2])"
    by (simp add: update_conv')
  from fold_array_rest[OF assms(1) this, of rest] show ?thesis
    using assms(1,2) step2
    by (simp add: vs addProperty_leaf update_fresh update_snoc) (simp add: setLeaf_def update_fresh)
qed


lemma roundTrips_Document: "roundTrips (Document m) = (m \<noteq> [] \<and> roundTripsDoc m)"
  by (simp add: roundTripsDoc_def)

lemma mapToPlist_nonempty:
  "roundTripsDoc m \<Longrightarrow> m \<noteq> [] \<Longrightarrow> mapToPlist p m \<noteq> []"
proof (induction p m rule: mapToPlist.induct)
  case (2 prefix k m rest)
  then show ?case by (simp add: roundTripsDoc_def)
next
  case (3 prefix k vs rest)
  then show ?case by (auto simp: roundTripsDoc_def)
qed simp_all

lemma decode_encode_acc:
  "roundTripsDoc m \<Longrightarrow> \<forall>k\<in>fst ` set m. map_of acc k = None \<Longrightarrow>
     fold addProperty (mapToPlist [] m) acc = acc @ m"
proof (induction "size_list (size_prod (\<lambda>_. 0) size) m" arbitrary: m acc rule: less_induct)
  case less
  show ?case
  proof (cases m)
    case Nil
    then show ?thesis by simp
  next
    case (Cons kv rest)
    obtain k v where kv: "kv = (k, v)" by (cases kv)
    have m: "m = (k, v) # rest" using Cons kv by simp
    have dot: "CHR ''.'' \<notin> set k" and v: "roundTrips v" and rest: "roundTripsDoc rest"
      and fresh: "map_of acc k = None" and notin: "k \<notin> fst ` set rest"
      using less.prems by (auto simp: m roundTripsDoc_def)
    have fresh': "\<forall>k'\<in>fst ` set rest. map_of (acc @ [(k, v)]) k' = None"
      using less.prems(2) notin by (auto simp: m map_of_snoc_other)
    have tail: "fold addProperty (mapToPlist [] rest) (acc @ [(k, v)]) = (acc @ [(k, v)]) @ rest"
      by (rule less.hyps[OF _ rest fresh']) (simp add: m)
    have head: "fold addProperty (mapToPlist [] [(k, v)]) acc = acc @ [(k, v)]"
    proof (cases v)
      case (Document m')
      have m': "m' \<noteq> []" "roundTripsDoc m'"
        using v unfolding Document roundTrips_Document by simp_all
      have inner: "fold addProperty (mapToPlist [] m') [] = m'"
        using less.hyps[of m' "[]"] m'(2) by (simp add: m Document)
      have "mapToPlist (k @ ''.'') m' = map (under (k @ ''.'')) (mapToPlist [] m')"
        using mapToPlist_prefix[of "k @ ''.''" "[]" m'] by simp
      then show ?thesis
        using fold_nested_absent[OF dot fresh mapToPlist_nonempty[OF m'(2,1)], of "[]"] inner
        by (simp add: Document)
    next
      case (Array vs)
      then show ?thesis
        using fold_array[OF dot fresh, of vs] v by simp
    qed (simp_all add: addProperty_leaf dot setLeaf_def fresh update_fresh)
    have "mapToPlist [] m = mapToPlist [] [(k, v)] @ mapToPlist [] rest"
      by (cases v) (simp_all add: m)
    then show ?thesis using head tail by (simp add: m)
  qed
qed

text \<open>
  Claim C1, as amended.  The round trip \<^verbatim>\<open>plistToMap(mapToPlist("", d), id)\<close> gives back
  \<open>d\<close> with \<^verbatim>\<open>_id\<close> set to \<open>id\<close> for every document \<open>d\<close> in which, at every level, no key
  has a dot in it, every nested document has a field, and every array has two elements or
  more and does not begin with an array.  The result is the same association list, with
  its keys in the same order, so it is the same map for every order in which the encoder
  may visit the keys.  That every array has a length other than 1 is not enough: see the
  counterexample below and the lemma after it.
\<close>

theorem roundtrip_wellformed:
  "roundTripsDoc d \<Longrightarrow> plistToMap (mapToPlist [] d) eid = AList.update idKey (Int64 eid) d"
  using decode_encode_acc[of d "[]"] by (simp add: plistToMap_def)


theorem roundtrip_wellformed_witness:
  "roundTripsDoc [(''name'', String ''Alice''), (''tags'', Array [String ''a'', String ''b'']),
       (''address'', Document [(''city'', String ''X'')])]
   \<and> plistToMap (mapToPlist [] [(''name'', String ''Alice''),
          (''tags'', Array [String ''a'', String ''b'']),
          (''address'', Document [(''city'', String ''X'')])]) 7
     = [(''name'', String ''Alice''), (''tags'', Array [String ''a'', String ''b'']),
        (''address'', Document [(''city'', String ''X'')]), (''_id'', Int64 7)]"
proof -
  have h: "roundTripsDoc [(''name'', String ''Alice''), (''tags'', Array [String ''a'', String ''b'']),
       (''address'', Document [(''city'', String ''X'')])]"
    by (simp add: roundTripsDoc_def)
  show ?thesis
    using h roundtrip_wellformed[OF h, of 7] by (simp add: idKey_def)
qed

theorem roundtrip_counterexample:
  "noSingletonArray (Document [(''a'', Array [])])
   \<and> map_of (plistToMap (mapToPlist [] [(''a'', Array [])]) 7)
       \<noteq> (map_of [(''a'', Array [])])(idKey \<mapsto> Int64 7)"
proof -
  have "map_of (plistToMap (mapToPlist [] [(''a'', Array [])]) 7) ''a'' = None"
    by (simp add: plistToMap_def idKey_def)
  moreover have "((map_of [(''a'', Array [])])(idKey \<mapsto> Int64 7)) ''a'' = Some (Array [])"
    by (simp add: idKey_def)
  ultimately have "map_of (plistToMap (mapToPlist [] [(''a'', Array [])]) 7)
       \<noteq> (map_of [(''a'', Array [])])(idKey \<mapsto> Int64 7)"
    by (metis option.distinct(1))
  then show ?thesis by simp
qed


text \<open>
  Each of the other conditions is needed too: a key with a dot comes back as a nested
  document, a nested document without a field is lost, and an array that begins with an
  array comes back flattened by one level.
\<close>

lemma roundtrip_conditions_needed:
  "plistToMap (mapToPlist [] [(''a.b'', Null)]) 7
     = [(''a'', Document [(''b'', Null)]), (''_id'', Int64 7)]"
  "plistToMap (mapToPlist [] [(''a'', Document [])]) 7 = [(''_id'', Int64 7)]"
  "plistToMap (mapToPlist [] [(''a'', Array [Array [Null], Array [Null]])]) 7
     = [(''a'', Array [Null, Array [Null]]), (''_id'', Int64 7)]"
  by (simp_all add: plistToMap_def addProperty_def setLeaf_def idKey_def)

section \<open>Arrays in the encoder\<close>

lemma mapToPlist_append:
  "mapToPlist p (xs @ ys) = mapToPlist p xs @ mapToPlist p ys"
  by (induction p xs rule: mapToPlist.induct) simp_all

text \<open>
  Claim C7.  A key whose value is an array of length \<open>N\<close> contributes exactly \<open>N\<close>
  properties to the encoding, between those of the keys before it and those of the keys
  after it: one for each element, in the order of the elements, each named
  \<^verbatim>\<open>prefix + key\<close> and flagged \<^verbatim>\<open>Multiple\<close>.  An empty array contributes none, so the
  document encodes as it does without the field, and decodes as the document without the
  field does: the field is absent after the round trip.
\<close>

theorem encode_array:
  "mapToPlist prefix (before @ (k, Array vs) # after) =
     mapToPlist prefix before
     @ map (\<lambda>mv. \<lparr>Name = prefix @ k, Value = mv, NoIndex = False, Multiple = True\<rparr>) vs
     @ mapToPlist prefix after
   \<and> length (map (\<lambda>mv. \<lparr>Name = prefix @ k, Value = mv, NoIndex = False, Multiple = True\<rparr>) vs)
       = length vs
   \<and> mapToPlist prefix (before @ (k, Array []) # after) = mapToPlist prefix (before @ after)
   \<and> plistToMap (mapToPlist [] (before @ (k, Array []) # after)) eid
       = plistToMap (mapToPlist [] (before @ after)) eid"
  by (simp add: mapToPlist_append)

section \<open>A segment that holds something other than a document\<close>

lemma setLeaf_other: "leaf \<noteq> k \<Longrightarrow> map_of (setLeaf leaf x sub) k = map_of sub k"
  by (simp add: setLeaf_def update_conv' split: option.splits val.splits)

lemma walk_keeps:
  "map_of sub k = Some v \<Longrightarrow> \<not> isDocument v \<Longrightarrow> leaf \<noteq> k \<Longrightarrow>
     map_of (walk ps leaf x sub) k = Some v"
proof (induction ps)
  case Nil
  then show ?case by (simp add: setLeaf_other)
next
  case (Cons p ps)
  show ?case
  proof (cases "p = k")
    case True
    with Cons show ?thesis by (cases v) simp_all
  next
    case False
    with Cons show ?thesis
      by (auto simp: update_conv' split: option.splits val.splits)
  qed
qed

lemma documentAt_Cons:
  "documentAt (p # ps) m = Some sub \<Longrightarrow>
     \<exists>ii. map_of m p = Some (Document ii) \<and> documentAt ps ii = Some sub"
  by (auto split: option.splits val.splits)

lemma walk_skips:
  "documentAt pre m = Some sub \<Longrightarrow> map_of sub k = Some v \<Longrightarrow> \<not> isDocument v \<Longrightarrow>
     walk (pre @ k # post) leaf x m = walk (pre @ post) leaf x m"
proof (induction pre arbitrary: m)
  case Nil
  then show ?case by (cases v) simp_all
next
  case (Cons p pre)
  from documentAt_Cons[OF Cons.prems(1)] obtain ii
    where ii: "map_of m p = Some (Document ii)" "documentAt pre ii = Some sub" by blast
  from Cons.IH[OF ii(2) Cons.prems(2,3)] show ?case by (simp add: ii(1))
qed

lemma walk_keeps_at:
  "documentAt pre m = Some sub \<Longrightarrow> map_of sub k = Some v \<Longrightarrow> \<not> isDocument v \<Longrightarrow>
     leaf \<noteq> k \<Longrightarrow>
     \<exists>sub'. documentAt pre (walk (pre @ post) leaf x m) = Some sub' \<and> map_of sub' k = Some v"
proof (induction pre arbitrary: m)
  case Nil
  then show ?case by (simp add: walk_keeps)
next
  case (Cons p pre)
  from documentAt_Cons[OF Cons.prems(1)] obtain ii
    where ii: "map_of m p = Some (Document ii)" "documentAt pre ii = Some sub" by blast
  from Cons.IH[OF ii(2) Cons.prems(2,3,4)] show ?case by (simp add: ii(1) update_conv')
qed

text \<open>
  Claim C2, as amended.  Decoding does not fail: \<^const>\<open>plistToMap\<close> is a total function.
  When the walk for a property has reached, along the segments \<open>pre\<close>, a document
  that holds something other than a document under the next intermediate segment \<open>k\<close>,
  it does not descend and it does not stop either: it goes on in the same document with
  the rest of the segments.  So the property is not dropped; it is decoded exactly as a
  property of the same value whose name lacks that one segment.  What was stored
  under \<open>k\<close> is left as it was whenever the last segment of the property is not \<open>k\<close>.
\<close>

theorem decode_conflict:
  assumes "Split (Name p) CHR ''.'' = pre @ k # post @ [leaf]"
    and "Split (Name q) CHR ''.'' = pre @ post @ [leaf]"
    and "Value q = Value p"
    and "documentAt pre (fold addProperty earlier []) = Some sub"
    and "map_of sub k = Some v" and "\<not> isDocument v"
  shows "addProperty p (fold addProperty earlier []) = addProperty q (fold addProperty earlier [])
    \<and> plistToMap (earlier @ p # later) eid = plistToMap (earlier @ q # later) eid
    \<and> (leaf \<noteq> k \<longrightarrow>
         (\<exists>sub'. documentAt pre (fold addProperty (earlier @ [p]) []) = Some sub'
                \<and> map_of sub' k = Some v))"
proof -
  let ?m = "fold addProperty earlier []"
  have bl: "butlast (pre @ k # post @ [leaf]) = pre @ k # post"
           "butlast (pre @ post @ [leaf]) = pre @ post"
    by (simp_all add: butlast_append)
  have p: "addProperty p ?m = walk (pre @ k # post) leaf (Value p) ?m"
    using bl(1) by (simp add: addProperty_def assms(1))
  have q: "addProperty q ?m = walk (pre @ post) leaf (Value p) ?m"
    using bl(2) by (simp add: addProperty_def assms(2,3))
  have same: "addProperty p ?m = addProperty q ?m"
    unfolding p q by (rule walk_skips[OF assms(4,5,6)])
  have kept: "leaf \<noteq> k \<Longrightarrow>
      \<exists>sub'. documentAt pre (addProperty p ?m) = Some sub' \<and> map_of sub' k = Some v"
    unfolding same q by (rule walk_keeps_at[OF assms(4,5,6)])
  show ?thesis using same kept by (simp add: plistToMap_def)
qed

theorem decode_conflict_witness:
  "plistToMap [\<lparr>Name = ''a'', Value = String ''s'', NoIndex = False, Multiple = False\<rparr>,
               \<lparr>Name = ''a.b'', Value = String ''t'', NoIndex = False, Multiple = False\<rparr>] 7
   = plistToMap [\<lparr>Name = ''a'', Value = String ''s'', NoIndex = False, Multiple = False\<rparr>,
               \<lparr>Name = ''b'', Value = String ''t'', NoIndex = False, Multiple = False\<rparr>] 7
   \<and> (\<exists>sub'. documentAt []
         (fold addProperty
            [\<lparr>Name = ''a'', Value = String ''s'', NoIndex = False, Multiple = False\<rparr>,
             \<lparr>Name = ''a.b'', Value = String ''t'', NoIndex = False, Multiple = False\<rparr>] [])
         = Some sub' \<and> map_of sub' ''a'' = Some (String ''s''))"
  using decode_conflict[of "\<lparr>Name = ''a.b'', Value = String ''t'', NoIndex = False, Multiple = False\<rparr>"
      "[]" "''a''" "[]" "''b''"
      "\<lparr>Name = ''b'', Value = String ''t'', NoIndex = False, Multiple = False\<rparr>"
      "[\<lparr>Name = ''a'', Value = String ''s'', NoIndex = False, Multiple = False\<rparr>]"
      "[(''a'', String ''s'')]" "String ''s''" "[]" 7]
  by (simp add: addProperty_def setLeaf_def)

theorem decode_conflict_counterexample:
  "plistToMap [\<lparr>Name = ''a'', Value = String ''s'', NoIndex = False, Multiple = False\<rparr>,
               \<lparr>Name = ''a.b'', Value = String ''t'', NoIndex = False, Multiple = False\<rparr>] 7
     = [(''a'', String ''s''), (''b'', String ''t''), (''_id'', Int64 7)]
   \<and> plistToMap [\<lparr>Name = ''a'', Value = String ''s'', NoIndex = False, Multiple = False\<rparr>,
               \<lparr>Name = ''a.b'', Value = String ''t'', NoIndex = False, Multiple = False\<rparr>] 7
     \<noteq> plistToMap [\<lparr>Name = ''a'', Value = String ''s'', NoIndex = False, Multiple = False\<rparr>] 7
   \<and> plistToMap [\<lparr>Name = ''a'', Value = String ''s'', NoIndex = False, Multiple = False\<rparr>,
               \<lparr>Name = ''a.a'', Value = String ''t'', NoIndex = False, Multiple = False\<rparr>] 7
     = [(''a'', Array [String ''s'', String ''t'']), (''_id'', Int64 7)]"
  by (simp add: plistToMap_def addProperty_def setLeaf_def idKey_def)

section \<open>Update\<close>

lemma roundTripsDoc_delete: "roundTripsDoc d \<Longrightarrow> roundTripsDoc (AList.delete k d)"
  by (induction d) (auto simp: roundTripsDoc_def delete_keys)

lemma roundTripsDoc_update:
  "roundTripsDoc d \<Longrightarrow> CHR ''.'' \<notin> set k \<Longrightarrow> roundTrips v \<Longrightarrow>
     roundTripsDoc (AList.update k v d)"
proof (induction d)
  case Nil
  then show ?case by (simp add: roundTripsDoc_def)
next
  case (Cons a d)
  then show ?case
    by (cases a) (auto simp: roundTripsDoc_def update_keys dom_update image_iff)
qed

lemma roundTripsDoc_withUpdated:
  "roundTripsDoc m0 \<Longrightarrow> roundTripsDoc (withUpdated now m0)"
  by (simp add: withUpdated_def roundTripsDoc_update roundTripsDoc_delete updatedKey_def)

lemma roundTripsDoc_arrangement:
  "roundTripsDoc m \<Longrightarrow> arrangement visit m \<Longrightarrow> roundTripsDoc (visit m)"
  by (simp add: roundTripsDoc_def arrangement_def list_all_iff)

lemma map_of_arrangement:
  "distinct (map fst m) \<Longrightarrow> arrangement visit m \<Longrightarrow> map_of (visit m) = map_of m"
  by (simp add: arrangement_def map_of_inject_set)

lemma update_JSONObject:
  assumes "available s" and "accepts s (mapToPlist [] (visit (withUpdated now m0)))"
  shows "update visit now kind eid (JSONObject m0) s =
     Some ((Some (AList.update idKey (Int64 eid) (withUpdated now m0)), StatusOK),
           s\<lparr>entities := (entities s)((kind, if eid = 0 then nextID s else eid) \<mapsto>
                 mapToPlist [] (visit (withUpdated now m0))),
             nextID := max (nextID s) ((if eid = 0 then nextID s else eid) + 1)\<rparr>)"
  using assms by (simp add: update_def dsPut_def withUpdated_def Let_def)

text \<open>
  Claim C3, as amended.  On a store that is available and accepts the list, an update
  under an identifier other than 0 answers 200 and leaves under the key exactly the
  encoding of the new body with its metadata (the caller's \<^verbatim>\<open>_id\<close> and \<^verbatim>\<open>_created\<close> taken
  out, \<^verbatim>\<open>_updated\<close> stamped), in whatever order the map is visited and whatever was stored
  before: nothing of the old entity is kept, and no other entity is touched.  A \<^verbatim>\<open>get\<close>
  that follows returns the decoding of that encoding.  This is the fields of the new
  body with \<^verbatim>\<open>_updated\<close> and \<^verbatim>\<open>_id\<close>, the same map as the document the update answered
  with, when the body is one that the codec carries faithfully; for other bodies it is
  not, as the counterexample shows for a body with an empty array.
\<close>

theorem update_full_replace:
  assumes "available s"
    and "accepts s (mapToPlist [] (visit (withUpdated now newBody)))"
    and "eid \<noteq> 0"
  shows "\<exists>s'. update visit now kind eid (JSONObject newBody) s =
            Some ((Some (AList.update idKey (Int64 eid) (withUpdated now newBody)), StatusOK), s')
     \<and> entities s' (kind, eid) = Some (mapToPlist [] (visit (withUpdated now newBody)))
     \<and> (\<forall>key. key \<noteq> (kind, eid) \<longrightarrow> entities s' key = entities s key)
     \<and> get kind eid s' =
           (Some (plistToMap (mapToPlist [] (visit (withUpdated now newBody))) eid), StatusOK)
     \<and> (roundTripsDoc newBody \<and> arrangement visit (withUpdated now newBody) \<longrightarrow>
           get kind eid s' =
             (Some (AList.update idKey (Int64 eid) (visit (withUpdated now newBody))), StatusOK)
           \<and> map_of (AList.update idKey (Int64 eid) (visit (withUpdated now newBody)))
               = map_of (AList.update idKey (Int64 eid) (withUpdated now newBody)))"
proof -
  let ?m = "withUpdated now newBody"
  let ?s' = "s\<lparr>entities := (entities s)((kind, eid) \<mapsto> mapToPlist [] (visit ?m)),
               nextID := max (nextID s) (eid + 1)\<rparr>"
  have upd: "update visit now kind eid (JSONObject newBody) s =
      Some ((Some (AList.update idKey (Int64 eid) ?m), StatusOK), ?s')"
    using update_JSONObject[of s visit now newBody kind eid] assms by simp
  have stored: "entities ?s' (kind, eid) = Some (mapToPlist [] (visit ?m))"
    by simp
  have others: "\<forall>key. key \<noteq> (kind, eid) \<longrightarrow> entities ?s' key = entities s key"
    by simp
  have got: "get kind eid ?s' = (Some (plistToMap (mapToPlist [] (visit ?m)) eid), StatusOK)"
    using assms(1) by (simp add: get_def dsGet_def plistToMap_def)
  have dec: "plistToMap (mapToPlist [] (visit ?m)) eid = AList.update idKey (Int64 eid) (visit ?m)"
    and same: "map_of (AList.update idKey (Int64 eid) (visit ?m))
                 = map_of (AList.update idKey (Int64 eid) ?m)"
    if rt: "roundTripsDoc newBody" and ar: "arrangement visit ?m"
  proof -
    have m: "roundTripsDoc ?m" using rt by (rule roundTripsDoc_withUpdated)
    then have "roundTripsDoc (visit ?m)" using ar by (rule roundTripsDoc_arrangement)
    then show "plistToMap (mapToPlist [] (visit ?m)) eid = AList.update idKey (Int64 eid) (visit ?m)"
      using decode_encode_acc[of "visit ?m" "[]"] by (simp add: plistToMap_def)
    have "distinct (map fst ?m)" using m by (simp add: roundTripsDoc_def)
    then have "map_of (visit ?m) = map_of ?m" using ar by (rule map_of_arrangement)
    then show "map_of (AList.update idKey (Int64 eid) (visit ?m))
                 = map_of (AList.update idKey (Int64 eid) ?m)"
      by (simp add: update_conv')
  qed
  show ?thesis
    using upd stored others got dec same by (intro exI[of _ ?s']) simp
qed

theorem update_full_replace_witness:
  "entities aliceStore (''u1--contact'', 1) =
     Some [\<lparr>Name = ''name'', Value = String ''Alice'', NoIndex = False, Multiple = False\<rparr>,
           \<lparr>Name = ''tags'', Value = String ''a'', NoIndex = False, Multiple = True\<rparr>,
           \<lparr>Name = ''tags'', Value = String ''b'', NoIndex = False, Multiple = True\<rparr>,
           \<lparr>Name = ''_created'', Value = Int64 100, NoIndex = False, Multiple = False\<rparr>]
   \<and> (\<exists>s'. update (\<lambda>m. m) 1700 ''u1--contact'' 1 (JSONObject [(''name'', String ''Bob'')])
              aliceStore
            = Some ((Some [(''name'', String ''Bob''), (''_updated'', Int64 1700),
                           (''_id'', Int64 1)], StatusOK), s')
         \<and> entities s' (''u1--contact'', 1) =
             Some [\<lparr>Name = ''name'', Value = String ''Bob'', NoIndex = False, Multiple = False\<rparr>,
                   \<lparr>Name = ''_updated'', Value = Int64 1700, NoIndex = False, Multiple = False\<rparr>]
         \<and> get ''u1--contact'' 1 s' =
             (Some [(''name'', String ''Bob''), (''_updated'', Int64 1700), (''_id'', Int64 1)],
              StatusOK))"
proof -
  have av: "available aliceStore"
    and ac: "accepts aliceStore (mapToPlist [] (withUpdated 1700 [(''name'', String ''Bob'')]))"
    by (simp_all add: aliceStore_def emptyStore_def)
  have rt: "roundTripsDoc [(''name'', String ''Bob'')]"
    by (simp add: roundTripsDoc_def)
  have ar: "arrangement (\<lambda>m. m) (withUpdated 1700 [(''name'', String ''Bob'')])"
    by (simp add: arrangement_def withUpdated_def createdKey_def idKey_def updatedKey_def)
  note t = update_full_replace[of aliceStore "\<lambda>m. m" 1700 "[(''name'', String ''Bob'')]" 1
      "''u1--contact''"]
  from t[OF av ac] rt ar
  obtain s' where
    "update (\<lambda>m. m) 1700 ''u1--contact'' 1 (JSONObject [(''name'', String ''Bob'')]) aliceStore =
       Some ((Some (AList.update idKey (Int64 1) (withUpdated 1700 [(''name'', String ''Bob'')])),
              StatusOK), s')"
    "entities s' (''u1--contact'', 1) =
       Some (mapToPlist [] (withUpdated 1700 [(''name'', String ''Bob'')]))"
    "get ''u1--contact'' 1 s' =
       (Some (AList.update idKey (Int64 1) (withUpdated 1700 [(''name'', String ''Bob'')])),
        StatusOK)"
    by auto
  then have "update (\<lambda>m. m) 1700 ''u1--contact'' 1 (JSONObject [(''name'', String ''Bob'')])
              aliceStore
            = Some ((Some [(''name'', String ''Bob''), (''_updated'', Int64 1700),
                           (''_id'', Int64 1)], StatusOK), s')
         \<and> entities s' (''u1--contact'', 1) =
             Some [\<lparr>Name = ''name'', Value = String ''Bob'', NoIndex = False, Multiple = False\<rparr>,
                   \<lparr>Name = ''_updated'', Value = Int64 1700, NoIndex = False, Multiple = False\<rparr>]
         \<and> get ''u1--contact'' 1 s' =
             (Some [(''name'', String ''Bob''), (''_updated'', Int64 1700), (''_id'', Int64 1)],
              StatusOK)"
    by (simp add: withUpdated_def createdKey_def idKey_def updatedKey_def)
  then show ?thesis
    by (auto simp: aliceStore_def emptyStore_def)
qed

theorem update_get_counterexample:
  "update (\<lambda>m. m) 1700 ''u1--contact'' 1
      (JSONObject [(''name'', String ''Bob''), (''tags'', Array [])]) aliceStore
   = Some ((Some [(''name'', String ''Bob''), (''tags'', Array []), (''_updated'', Int64 1700),
                  (''_id'', Int64 1)], StatusOK), bobStore)
   \<and> get ''u1--contact'' 1 bobStore
     = (Some [(''name'', String ''Bob''), (''_updated'', Int64 1700), (''_id'', Int64 1)],
        StatusOK)
   \<and> map_of [(''name'', String ''Bob''), (''tags'', Array [])] ''tags'' = Some (Array [])
   \<and> map_of [(''name'', String ''Bob''), (''_updated'', Int64 1700), (''_id'', Int64 1)] ''tags''
     = None"
  by (simp add: update_def get_def dsPut_def dsGet_def emptyStore_def aliceStore_def bobStore_def
        createdKey_def idKey_def updatedKey_def plistToMap_def addProperty_def setLeaf_def)


section \<open>The states of an entity\<close>

lemma insert_JSONObject:
  assumes "available s" and "accepts s (mapToPlist [] (visit (withCreated now m0)))"
  shows "insert_entity visit now kind (JSONObject m0) s =
     Some ((Some (AList.update idKey (Int64 (nextID s)) (withCreated now m0)), StatusOK),
           s\<lparr>entities := (entities s)((kind, nextID s) \<mapsto>
                 mapToPlist [] (visit (withCreated now m0))),
             nextID := nextID s + 1\<rparr>)"
  using assms by (simp add: insert_entity_def dsPut_def withCreated_def Let_def)

lemma delete2_present:
  assumes "available s" and "present s kind eid"
  shows "delete2 kind eid s = (StatusOK, s\<lparr>entities := (entities s)((kind, eid) := None)\<rparr>)"
  using assms by (auto simp: delete2_def dsDelete_def present_def)

text \<open>
  Claim C4, as amended.  An entity is absent or present.  On a store that is available
  and accepts the list, an insertion answers 200 and creates an entity under the
  identifier the store generates, which is not 0 and under which nothing was present; an
  update under an identifier other than 0 answers 200 and leaves an entity present under
  it whether or not one was there before: \<^verbatim>\<open>update\<close> does not look the entity up and \<^verbatim>\<open>Put\<close>
  writes it, so an update of an absent identifier creates the entity.  On an available
  store the deletion of a present entity answers 200 and leaves it absent; on an absent
  one \<^verbatim>\<open>get\<close> and \<^verbatim>\<open>delete2\<close> answer 404 and change nothing.  Each operation leaves every
  other entity as it was.  The counter of the store never goes down and stays above
  every entity, so an identifier generated later is a new one.
\<close>

theorem entity_transitions:
  "(dsInv s \<and> available s \<and> accepts s (mapToPlist [] (visit (withCreated now m0))) \<longrightarrow>
      (\<exists>s1. insert_entity visit now kind (JSONObject m0) s =
               Some ((Some (AList.update idKey (Int64 (nextID s)) (withCreated now m0)),
                      StatusOK), s1)
        \<and> nextID s \<noteq> 0 \<and> \<not> present s kind (nextID s) \<and> present s1 kind (nextID s)
        \<and> (\<forall>k e. (k, e) \<noteq> (kind, nextID s) \<longrightarrow> present s1 k e = present s k e)
        \<and> nextID s < nextID s1 \<and> dsInv s1))
   \<and> (eid \<noteq> 0 \<and> available s \<and> accepts s (mapToPlist [] (visit (withUpdated now m0))) \<longrightarrow>
      (\<exists>s2. update visit now kind eid (JSONObject m0) s =
               Some ((Some (AList.update idKey (Int64 eid) (withUpdated now m0)), StatusOK), s2)
        \<and> present s2 kind eid
        \<and> (\<forall>k e. (k, e) \<noteq> (kind, eid) \<longrightarrow> present s2 k e = present s k e)
        \<and> nextID s \<le> nextID s2 \<and> (dsInv s \<longrightarrow> dsInv s2)))
   \<and> (available s \<and> present s kind eid2 \<longrightarrow>
      (\<exists>s3. delete2 kind eid2 s = (StatusOK, s3)
        \<and> \<not> present s3 kind eid2
        \<and> (\<forall>k e. (k, e) \<noteq> (kind, eid2) \<longrightarrow> present s3 k e = present s k e)
        \<and> nextID s3 = nextID s \<and> (dsInv s \<longrightarrow> dsInv s3)))
   \<and> (available s \<and> \<not> present s kind eid3 \<longrightarrow>
      get kind eid3 s = (None, StatusNotFound) \<and> delete2 kind eid3 s = (StatusNotFound, s))"
proof (intro conjI impI)
  assume a: "dsInv s \<and> available s \<and> accepts s (mapToPlist [] (visit (withCreated now m0)))"
  let ?s1 = "s\<lparr>entities := (entities s)((kind, nextID s) \<mapsto>
                 mapToPlist [] (visit (withCreated now m0))),
               nextID := nextID s + 1\<rparr>"
  from a have inv: "dsInv s" by simp
  have ins: "insert_entity visit now kind (JSONObject m0) s =
      Some ((Some (AList.update idKey (Int64 (nextID s)) (withCreated now m0)), StatusOK), ?s1)"
    using insert_JSONObject[of s visit now m0 kind] a by simp
  have 1: "nextID s \<noteq> 0" using inv by (simp add: dsInv_def)
  have 2: "\<not> present s kind (nextID s)" using inv by (auto simp: dsInv_def)
  have 3: "present ?s1 kind (nextID s)" by (simp add: present_def)
  have 4: "\<forall>k e. (k, e) \<noteq> (kind, nextID s) \<longrightarrow> present ?s1 k e = present s k e"
    by (simp add: present_def)
  have 5: "nextID s < nextID ?s1" by simp
  have 6: "dsInv ?s1" using inv by (fastforce simp: dsInv_def present_def split: if_splits)
  show "\<exists>s1. insert_entity visit now kind (JSONObject m0) s =
               Some ((Some (AList.update idKey (Int64 (nextID s)) (withCreated now m0)),
                      StatusOK), s1)
        \<and> nextID s \<noteq> 0 \<and> \<not> present s kind (nextID s) \<and> present s1 kind (nextID s)
        \<and> (\<forall>k e. (k, e) \<noteq> (kind, nextID s) \<longrightarrow> present s1 k e = present s k e)
        \<and> nextID s < nextID s1 \<and> dsInv s1"
    using ins 1 2 3 4 5 6 by (intro exI[of _ ?s1]) blast
next
  assume a: "eid \<noteq> 0 \<and> available s \<and> accepts s (mapToPlist [] (visit (withUpdated now m0)))"
  let ?s2 = "s\<lparr>entities := (entities s)((kind, eid) \<mapsto>
                 mapToPlist [] (visit (withUpdated now m0))),
               nextID := max (nextID s) (eid + 1)\<rparr>"
  have upd: "update visit now kind eid (JSONObject m0) s =
      Some ((Some (AList.update idKey (Int64 eid) (withUpdated now m0)), StatusOK), ?s2)"
    using update_JSONObject[of s visit now m0 kind eid] a by simp
  have 1: "present ?s2 kind eid" by (simp add: present_def)
  have 2: "\<forall>k e. (k, e) \<noteq> (kind, eid) \<longrightarrow> present ?s2 k e = present s k e"
    by (simp add: present_def)
  have 3: "nextID s \<le> nextID ?s2" by simp
  have 4: "dsInv s \<longrightarrow> dsInv ?s2"
    by (fastforce simp: dsInv_def present_def split: if_splits)
  show "\<exists>s2. update visit now kind eid (JSONObject m0) s =
               Some ((Some (AList.update idKey (Int64 eid) (withUpdated now m0)), StatusOK), s2)
        \<and> present s2 kind eid
        \<and> (\<forall>k e. (k, e) \<noteq> (kind, eid) \<longrightarrow> present s2 k e = present s k e)
        \<and> nextID s \<le> nextID s2 \<and> (dsInv s \<longrightarrow> dsInv s2)"
    using upd 1 2 3 4 by (intro exI[of _ ?s2]) blast
next
  assume a: "available s \<and> present s kind eid2"
  let ?s3 = "s\<lparr>entities := (entities s)((kind, eid2) := None)\<rparr>"
  have del: "delete2 kind eid2 s = (StatusOK, ?s3)"
    using delete2_present[of s kind eid2] a by simp
  have 1: "\<not> present ?s3 kind eid2" by (simp add: present_def)
  have 2: "\<forall>k e. (k, e) \<noteq> (kind, eid2) \<longrightarrow> present ?s3 k e = present s k e"
    by (simp add: present_def)
  have 3: "nextID ?s3 = nextID s" by simp
  have 4: "dsInv s \<longrightarrow> dsInv ?s3"
    by (fastforce simp: dsInv_def present_def split: if_splits)
  show "\<exists>s3. delete2 kind eid2 s = (StatusOK, s3)
        \<and> \<not> present s3 kind eid2
        \<and> (\<forall>k e. (k, e) \<noteq> (kind, eid2) \<longrightarrow> present s3 k e = present s k e)
        \<and> nextID s3 = nextID s \<and> (dsInv s \<longrightarrow> dsInv s3)"
    using del 1 2 3 4 by (intro exI[of _ ?s3]) blast
next
  assume a: "available s \<and> \<not> present s kind eid3"
  then show "get kind eid3 s = (None, StatusNotFound)"
    by (simp add: get_def dsGet_def present_def)
  from a show "delete2 kind eid3 s = (StatusNotFound, s)"
    by (simp add: delete2_def dsDelete_def present_def)
qed

lemma dsInv_aliceStore: "dsInv aliceStore"
  by (simp add: dsInv_def aliceStore_def emptyStore_def present_def)

theorem entity_transitions_witness:
  "dsInv aliceStore
   \<and> \<not> present aliceStore ''u1--contact'' 2
   \<and> (\<exists>s1. insert_entity (\<lambda>m. m) 1700 ''u1--contact'' (JSONObject [(''name'', String ''Bob'')])
              aliceStore
            = Some ((Some [(''name'', String ''Bob''), (''_created'', Int64 1700),
                           (''_id'', Int64 2)], StatusOK), s1)
         \<and> present s1 ''u1--contact'' 2 \<and> present s1 ''u1--contact'' 1)
   \<and> \<not> present aliceStore ''u1--contact'' 5
   \<and> (\<exists>s2. update (\<lambda>m. m) 1700 ''u1--contact'' 5 (JSONObject [(''name'', String ''Bob'')])
              aliceStore
            = Some ((Some [(''name'', String ''Bob''), (''_updated'', Int64 1700),
                           (''_id'', Int64 5)], StatusOK), s2)
         \<and> present s2 ''u1--contact'' 5)
   \<and> present aliceStore ''u1--contact'' 1
   \<and> (\<exists>s3. delete2 ''u1--contact'' 1 aliceStore = (StatusOK, s3)
         \<and> \<not> present s3 ''u1--contact'' 1)
   \<and> get ''u1--contact'' 9 aliceStore = (None, StatusNotFound)
   \<and> delete2 ''u1--contact'' 9 aliceStore = (StatusNotFound, aliceStore)"
proof -
  have av: "available aliceStore" and ac: "accepts aliceStore pl" for pl
    by (simp_all add: aliceStore_def emptyStore_def)
  have p1: "present aliceStore ''u1--contact'' 1"
    and p2: "\<not> present aliceStore ''u1--contact'' 2"
    and p5: "\<not> present aliceStore ''u1--contact'' 5"
    and p9: "\<not> present aliceStore ''u1--contact'' 9"
    and n: "nextID aliceStore = 2"
    by (simp_all add: present_def aliceStore_def emptyStore_def)
  have w: "withCreated 1700 [(''name'', String ''Bob'')]
             = [(''name'', String ''Bob''), (''_created'', Int64 1700)]"
          "withUpdated 1700 [(''name'', String ''Bob'')]
             = [(''name'', String ''Bob''), (''_updated'', Int64 1700)]"
    by (simp_all add: withCreated_def withUpdated_def createdKey_def idKey_def updatedKey_def)
  note t = entity_transitions[of aliceStore "\<lambda>m. m" 1700 "[(''name'', String ''Bob'')]"
      "''u1--contact''" 5 1 9]
  have z: "(5::int) \<noteq> 0" by simp
  note t1 = t[THEN conjunct1, THEN mp, OF conjI[OF dsInv_aliceStore conjI[OF av ac]]]
  note t2 = t[THEN conjunct2, THEN conjunct1, THEN mp, OF conjI[OF z conjI[OF av ac]]]
  note t3 = t[THEN conjunct2, THEN conjunct2, THEN conjunct1, THEN mp, OF conjI[OF av p1]]
  note t4 = t[THEN conjunct2, THEN conjunct2, THEN conjunct2, THEN mp, OF conjI[OF av p9]]
  from t1 obtain s1 where
    i: "insert_entity (\<lambda>m. m) 1700 ''u1--contact'' (JSONObject [(''name'', String ''Bob'')])
          aliceStore
        = Some ((Some (AList.update idKey (Int64 (nextID aliceStore))
                        (withCreated 1700 [(''name'', String ''Bob'')])), StatusOK), s1)"
    and i1: "present s1 ''u1--contact'' (nextID aliceStore)"
    and i2: "\<forall>k e. (k, e) \<noteq> (''u1--contact'', nextID aliceStore) \<longrightarrow>
               present s1 k e = present aliceStore k e"
    by blast
  have c1: "\<exists>s1. insert_entity (\<lambda>m. m) 1700 ''u1--contact''
              (JSONObject [(''name'', String ''Bob'')]) aliceStore
            = Some ((Some [(''name'', String ''Bob''), (''_created'', Int64 1700),
                           (''_id'', Int64 2)], StatusOK), s1)
         \<and> present s1 ''u1--contact'' 2 \<and> present s1 ''u1--contact'' 1"
  proof (intro exI[of _ s1] conjI)
    show "insert_entity (\<lambda>m. m) 1700 ''u1--contact'' (JSONObject [(''name'', String ''Bob'')])
            aliceStore
          = Some ((Some [(''name'', String ''Bob''), (''_created'', Int64 1700),
                         (''_id'', Int64 2)], StatusOK), s1)"
      using i by (simp add: n w idKey_def)
    show "present s1 ''u1--contact'' 2" using i1 by (simp add: n)
    show "present s1 ''u1--contact'' 1" using i2 p1 by (simp add: n)
  qed
  from t2 obtain s2 where
    u: "update (\<lambda>m. m) 1700 ''u1--contact'' 5 (JSONObject [(''name'', String ''Bob'')]) aliceStore
        = Some ((Some (AList.update idKey (Int64 5)
                        (withUpdated 1700 [(''name'', String ''Bob'')])), StatusOK), s2)"
    and u1: "present s2 ''u1--contact'' 5"
    by blast
  have c2: "\<exists>s2. update (\<lambda>m. m) 1700 ''u1--contact'' 5 (JSONObject [(''name'', String ''Bob'')])
              aliceStore
            = Some ((Some [(''name'', String ''Bob''), (''_updated'', Int64 1700),
                           (''_id'', Int64 5)], StatusOK), s2)
         \<and> present s2 ''u1--contact'' 5"
    using u u1 by (intro exI[of _ s2]) (simp add: w idKey_def)
  from t3 have c3: "\<exists>s3. delete2 ''u1--contact'' 1 aliceStore = (StatusOK, s3)
         \<and> \<not> present s3 ''u1--contact'' 1"
    by blast
  show ?thesis
    using dsInv_aliceStore p2 c1 p5 c2 p1 c3 t4 by blast
qed

theorem update_creates_counterexample:
  "\<not> present emptyStore ''u1--contact'' 5
   \<and> update (\<lambda>m. m) 1700 ''u1--contact'' 5 (JSONObject [(''name'', String ''Bob'')]) emptyStore
     = Some ((Some [(''name'', String ''Bob''), (''_updated'', Int64 1700), (''_id'', Int64 5)],
              StatusOK),
             emptyStore\<lparr>entities := (entities emptyStore)((''u1--contact'', 5) \<mapsto>
                 mapToPlist [] [(''name'', String ''Bob''), (''_updated'', Int64 1700)]),
               nextID := 6\<rparr>)
   \<and> present (emptyStore\<lparr>entities := (entities emptyStore)((''u1--contact'', 5) \<mapsto>
                 mapToPlist [] [(''name'', String ''Bob''), (''_updated'', Int64 1700)]),
               nextID := 6\<rparr>) ''u1--contact'' 5"
  by (simp add: update_def dsPut_def present_def emptyStore_def
        createdKey_def idKey_def updatedKey_def)

section \<open>The reserved keys\<close>

text \<open>
  Claim C5, on the code.  \<^verbatim>\<open>update\<close> removes \<^verbatim>\<open>_created\<close> from the body and never reads the
  stored entity (the source has a TODO for it), so the entity that had \<^verbatim>\<open>_created\<close> after
  the insertion has none after the update.
\<close>

theorem update_loses_created:
  "insert_entity (\<lambda>m. m) 100 ''u1--contact''
     (JSONObject [(''name'', String ''Alice''), (''tags'', Array [String ''a'', String ''b''])])
     emptyStore
   = Some ((Some [(''name'', String ''Alice''), (''tags'', Array [String ''a'', String ''b'']),
                  (''_created'', Int64 100), (''_id'', Int64 1)], StatusOK), aliceStore)
   \<and> map_of (the (fst (get ''u1--contact'' 1 aliceStore))) createdKey = Some (Int64 100)
   \<and> update (\<lambda>m. m) 1700 ''u1--contact'' 1 (JSONObject [(''name'', String ''Bob'')]) aliceStore
   = Some ((Some [(''name'', String ''Bob''), (''_updated'', Int64 1700), (''_id'', Int64 1)],
            StatusOK), bobStore)
   \<and> entities bobStore (''u1--contact'', 1) =
     Some [\<lparr>Name = ''name'', Value = String ''Bob'', NoIndex = False, Multiple = False\<rparr>,
           \<lparr>Name = ''_updated'', Value = Int64 1700, NoIndex = False, Multiple = False\<rparr>]
   \<and> map_of (the (fst (get ''u1--contact'' 1 bobStore))) createdKey = None"
  by (simp add: insert_entity_def update_def get_def dsPut_def dsGet_def
        emptyStore_def aliceStore_def bobStore_def createdKey_def idKey_def updatedKey_def
        plistToMap_def addProperty_def setLeaf_def)

text \<open>
  Claim C6, on the code.  \<^verbatim>\<open>insert\<close> overwrites \<^verbatim>\<open>_created\<close> and sets \<^verbatim>\<open>_id\<close> in the document
  it returns, but only after encoding: an \<^verbatim>\<open>_id\<close> in the body is stored as a property.
  \<^verbatim>\<open>update\<close> deletes both keys before encoding.
\<close>

theorem insert_stores_caller_id:
  "insert_entity (\<lambda>m. m) 100 ''u1--contact''
     (JSONObject [(''_id'', String ''mine''), (''name'', String ''Eve'')]) emptyStore
   = Some ((Some [(''_id'', Int64 1), (''name'', String ''Eve''), (''_created'', Int64 100)],
            StatusOK),
           emptyStore\<lparr>entities := (entities emptyStore)((''u1--contact'', 1) \<mapsto>
              [\<lparr>Name = ''_id'', Value = String ''mine'', NoIndex = False, Multiple = False\<rparr>,
               \<lparr>Name = ''name'', Value = String ''Eve'', NoIndex = False, Multiple = False\<rparr>,
               \<lparr>Name = ''_created'', Value = Int64 100, NoIndex = False, Multiple = False\<rparr>]),
             nextID := 2\<rparr>)
   \<and> update (\<lambda>m. m) 1700 ''u1--contact'' 1
     (JSONObject [(''_id'', String ''mine''), (''name'', String ''Eve'')]) emptyStore
   = Some ((Some [(''name'', String ''Eve''), (''_updated'', Int64 1700), (''_id'', Int64 1)],
            StatusOK),
           emptyStore\<lparr>entities := (entities emptyStore)((''u1--contact'', 1) \<mapsto>
              [\<lparr>Name = ''name'', Value = String ''Eve'', NoIndex = False, Multiple = False\<rparr>,
               \<lparr>Name = ''_updated'', Value = Int64 1700, NoIndex = False, Multiple = False\<rparr>]),
             nextID := 2\<rparr>)"
  by (simp add: insert_entity_def update_def dsPut_def emptyStore_def
        createdKey_def idKey_def updatedKey_def)

section \<open>Listing\<close>

lemma listLoop_error:
  "\<exists>st\<in>set steps. isError st \<Longrightarrow> listLoop items crs steps = (None, StatusInternalServerError)"
  by (induction items crs steps rule: listLoop.induct) simp_all


text \<open>
  Claim C9.  When a call of \<^verbatim>\<open>Next\<close> or of \<^verbatim>\<open>Cursor\<close> returns an error at any point of the
  iteration, \<^verbatim>\<open>list\<close> returns no map and the status 500, whatever rows were decoded before;
  the handler then answers 500 with no body and leaves the store as it was.
\<close>

theorem list_error_aborts:
  assumes "\<exists>st\<in>set (runQuery env (buildQuery (DecodeCursor env) (uid @ ''--'' @ kind) uq) s).
             isError st"
  shows "list_entities (DecodeCursor env) (runQuery env) (uid @ ''--'' @ kind) uq s
           = (None, StatusInternalServerError)
     \<and> (userIDOf env r = Inr uid \<and> getKindAndID (Path r) = Inr (kind, 0)
          \<and> Method r = ''GET'' \<and> newUserQuery env r = Some uq \<longrightarrow>
        handle env r s = Some ((StatusInternalServerError, None), s))"
  using listLoop_error[OF assms, of "[]" "[]"]
  by (simp add: list_entities_def handle_def finish_def)

theorem list_error_aborts_witness:
  "list_entities sampleDecode failingRun ''u1--contact''
      \<lparr>Limit = 0, StartCursor = [], EndCursor = [], Sort = [], Filters = []\<rparr> aliceStore
     = (None, StatusInternalServerError)
   \<and> handle (devEnv\<lparr>runQuery := failingRun\<rparr>) (sampleRequest ''GET'' ''/contact'') aliceStore
     = Some ((StatusInternalServerError, None), aliceStore)"
  using list_error_aborts[of "devEnv\<lparr>runQuery := failingRun\<rparr>" "''u1''" "''contact''"
      "\<lparr>Limit = 0, StartCursor = [], EndCursor = [], Sort = [], Filters = []\<rparr>" aliceStore
      "sampleRequest ''GET'' ''/contact''"]
  by (simp add: devEnv_def failingRun_def sampleRequest_def aliceStore_def emptyStore_def
        buildQuery_def sampleDecode_def userIDOf_def FormValue_def getKindAndID_def
        HasPrefix_def newUserQuery_def)





lemma fst_buildQuery: "fst (buildQuery dec kind uq) = kind"
  by (simp add: buildQuery_def)





section \<open>The identifier 0\<close>

lemma ParseInt_zero: "ParseInt ''0'' 64 = Some 0"
  by (simp add: ParseInt_def ParseUint_def isDigit_def)

lemma getKindAndID_zero:
  assumes "CHR ''/'' \<notin> set kind"
  shows "getKindAndID (''/'' @ kind @ ''/0'') = Inr (kind, 0)"
proof -
  have "Split (kind @ ''/0'') CHR ''/'' = [kind, ''0'']"
    using Split_append[OF assms, of "''0''"] by simp
  then show ?thesis
    by (simp add: getKindAndID_def HasPrefix_def ParseInt_zero)
qed

lemma getKindAndID_collection:
  assumes "CHR ''/'' \<notin> set kind" and "kind \<noteq> []"
  shows "getKindAndID (''/'' @ kind) = Inr (kind, 0)"
  using assms by (simp add: getKindAndID_def HasPrefix_def Split_nosep)

text \<open>
  Claim C10.  The path \<^verbatim>\<open>/kind/0\<close> parses to the kind and the identifier 0.  For every
  request whose path parses to the identifier 0 the handler takes the branch of a
  collection: POST inserts, GET lists (after the query parameters have parsed), and any
  other method, DELETE among them, is answered 405 with the store unchanged.  So
  \<^verbatim>\<open>get\<close>, \<^verbatim>\<open>update\<close> and \<^verbatim>\<open>delete2\<close> are never reached with the identifier 0, and the
  request for \<^verbatim>\<open>/kind/0\<close> is answered exactly as the request for \<^verbatim>\<open>/kind\<close> is.
\<close>

theorem zero_id_is_collection:
  assumes "CHR ''/'' \<notin> set kind" and "userIDOf env r = Inr uid"
  shows "getKindAndID (''/'' @ kind @ ''/0'') = Inr (kind, 0)
    \<and> (getKindAndID (Path r) = Inr (kind, 0) \<longrightarrow>
         handle env r s =
           (if Method r = ''POST'' then
              map_option (\<lambda>(res, s'). (finish res, s'))
                (insert_entity (visitOrder env) (nowUnix env) (uid @ ''--'' @ kind) (Body r) s)
            else if Method r = ''GET'' then
              (case newUserQuery env r of
                 None \<Rightarrow> Some ((StatusBadRequest, None), s)
               | Some uq \<Rightarrow>
                   Some (finish (list_entities (DecodeCursor env) (runQuery env)
                                   (uid @ ''--'' @ kind) uq s), s))
            else Some ((StatusMethodNotAllowed, None), s))
         \<and> handle env (r\<lparr>Method := ''DELETE''\<rparr>) s
             = Some ((StatusMethodNotAllowed, None), s))
    \<and> (kind \<noteq> [] \<longrightarrow>
         handle env (r\<lparr>Path := ''/'' @ kind @ ''/0''\<rparr>) s
           = handle env (r\<lparr>Path := ''/'' @ kind\<rparr>) s)"
proof -
  have f: "FormValue (r\<lparr>Path := p\<rparr>) key = FormValue r key" for p key
    by (simp add: FormValue_def)
  have "userIDOf env (r\<lparr>Path := p\<rparr>) = userIDOf env r" for p
    by (simp add: userIDOf_def f Let_def)
  then have u: "userIDOf env (r\<lparr>Path := p\<rparr>) = Inr uid" for p
    using assms(2) by simp
  have w: "Form (r\<lparr>Path := p\<rparr>) = Form r" for p
    by simp
  have q: "newUserQuery env (r\<lparr>Path := p\<rparr>) = newUserQuery env r" for p
    unfolding newUserQuery_def f w by (rule refl)
  have c1: "getKindAndID (''/'' @ kind @ ''/0'') = Inr (kind, 0)"
    by (rule getKindAndID_zero[OF assms(1)])
  have c2: "handle env r s =
           (if Method r = ''POST'' then
              map_option (\<lambda>(res, s'). (finish res, s'))
                (insert_entity (visitOrder env) (nowUnix env) (uid @ ''--'' @ kind) (Body r) s)
            else if Method r = ''GET'' then
              (case newUserQuery env r of
                 None \<Rightarrow> Some ((StatusBadRequest, None), s)
               | Some uq \<Rightarrow>
                   Some (finish (list_entities (DecodeCursor env) (runQuery env)
                                   (uid @ ''--'' @ kind) uq s), s))
            else Some ((StatusMethodNotAllowed, None), s))"
    if "getKindAndID (Path r) = Inr (kind, 0)"
    using that assms(2) by (simp add: handle_def Let_def split: option.splits)
  have c3: "handle env (r\<lparr>Path := ''/'' @ kind @ ''/0''\<rparr>) s
           = handle env (r\<lparr>Path := ''/'' @ kind\<rparr>) s" if "kind \<noteq> []"
    using getKindAndID_zero[OF assms(1)] getKindAndID_collection[OF assms(1) that]
    by (simp add: handle_def u q Let_def split: option.splits cong: if_cong)
  have "userIDOf env (r\<lparr>Method := m\<rparr>) = userIDOf env r" for m
    by (simp add: userIDOf_def FormValue_def Let_def)
  then have c4: "handle env (r\<lparr>Method := ''DELETE''\<rparr>) s
             = Some ((StatusMethodNotAllowed, None), s)"
    if "getKindAndID (Path r) = Inr (kind, 0)"
    using that assms(2) by (simp add: handle_def)
  show ?thesis
    using c1 c2 c3 c4 by blast
qed

theorem zero_id_is_collection_witness:
  "getKindAndID ''/contact/0'' = Inr (''contact'', 0)
   \<and> handle devEnv (sampleRequest ''GET'' ''/contact/0'') aliceStore
     = Some ((StatusOK,
              Some [(''items'', Array [Document [(''name'', String ''Alice''),
                      (''tags'', Array [String ''a'', String ''b'']),
                      (''_created'', Int64 100), (''_id'', Int64 1)]]),
                    (''nextStartToken'', String ''c1'')]), aliceStore)
   \<and> handle devEnv (sampleRequest ''DELETE'' ''/contact/0'') aliceStore
     = Some ((StatusMethodNotAllowed, None), aliceStore)
   \<and> handle devEnv (sampleRequest ''POST'' ''/contact/0'') aliceStore
     = Some ((StatusOK,
              Some [(''name'', String ''Bob''), (''_created'', Int64 1700), (''_id'', Int64 2)]),
             aliceStore\<lparr>entities := (entities aliceStore)((''u1--contact'', 2) \<mapsto>
                 mapToPlist [] [(''name'', String ''Bob''), (''_created'', Int64 1700)]),
               nextID := 3\<rparr>)
   \<and> handle devEnv (sampleRequest ''GET'' ''/contact/0'') aliceStore
     = handle devEnv (sampleRequest ''GET'' ''/contact'') aliceStore"
proof -
  have k: "CHR ''/'' \<notin> set ''contact''" by simp
  have u: "userIDOf devEnv (sampleRequest m p) = Inr ''u1''" for m p
    by (simp add: userIDOf_def devEnv_def sampleRequest_def FormValue_def)
  have q: "newUserQuery devEnv (sampleRequest m p)
             = Some \<lparr>Limit = 0, StartCursor = [], EndCursor = [], Sort = [], Filters = []\<rparr>" for m p
    by (simp add: newUserQuery_def sampleRequest_def FormValue_def)
  have l: "list_entities sampleDecode sampleRun ''u1--contact''
             \<lparr>Limit = 0, StartCursor = [], EndCursor = [], Sort = [], Filters = []\<rparr> aliceStore
           = (Some [(''items'', Array [Document [(''name'', String ''Alice''),
                      (''tags'', Array [String ''a'', String ''b'']),
                      (''_created'', Int64 100), (''_id'', Int64 1)]]),
                    (''nextStartToken'', String ''c1'')], StatusOK)"
    by (simp add: list_entities_def sampleRun_def buildQuery_def sampleDecode_def
          aliceStore_def emptyStore_def plistToMap_def addProperty_def setLeaf_def idKey_def)
  have i: "insert_entity (\<lambda>m. m) 1700 ''u1--contact'' (JSONObject [(''name'', String ''Bob'')]) aliceStore
           = Some ((Some [(''name'', String ''Bob''), (''_created'', Int64 1700),
                          (''_id'', Int64 2)], StatusOK),
                   aliceStore\<lparr>entities := (entities aliceStore)((''u1--contact'', 2) \<mapsto>
                       mapToPlist [] [(''name'', String ''Bob''), (''_created'', Int64 1700)]),
                     nextID := 3\<rparr>)"
    by (simp add: insert_entity_def dsPut_def aliceStore_def emptyStore_def
          createdKey_def idKey_def)
  have p: "Path (sampleRequest m p) = p" "Method (sampleRequest m p) = m"
          "Body (sampleRequest m p) = JSONObject [(''name'', String ''Bob'')]"
          "sampleRequest m p\<lparr>Path := p'\<rparr> = sampleRequest m p'" for m p p'
    by (simp_all add: sampleRequest_def)
  have e: "DecodeCursor devEnv = sampleDecode" "runQuery devEnv = sampleRun" "nowUnix devEnv = 1700"
          "visitOrder devEnv = (\<lambda>m. m)"
    by (simp_all add: devEnv_def)
  note z = zero_id_is_collection[OF k u]
  have g: "getKindAndID ''/contact/0'' = Inr (''contact'', 0)"
    using z[of "''GET''" "''/contact/0''" aliceStore] by simp
  have h: "handle devEnv (sampleRequest m ''/contact/0'') aliceStore =
      (if m = ''POST'' then
         map_option (\<lambda>(res, s'). (finish res, s'))
           (insert_entity (\<lambda>m. m) 1700 ''u1--contact'' (JSONObject [(''name'', String ''Bob'')]) aliceStore)
       else if m = ''GET'' then
         Some (finish (list_entities sampleDecode sampleRun ''u1--contact''
                \<lparr>Limit = 0, StartCursor = [], EndCursor = [], Sort = [], Filters = []\<rparr>
                aliceStore), aliceStore)
       else Some ((StatusMethodNotAllowed, None), aliceStore))" for m
    using z[of m "''/contact/0''" aliceStore] g by (simp add: p q e)
  have c: "handle devEnv (sampleRequest ''GET'' ''/contact/0'') aliceStore
     = handle devEnv (sampleRequest ''GET'' ''/contact'') aliceStore"
    using z[of "''GET''" "''/contact/0''" aliceStore] by (simp add: p)
  show ?thesis
    using g c by (simp add: h l i finish_def)
qed

end
